theory Spec2Isabelle
  imports Complex_Main "HOL-Library.Char_ord" "HOL-Library.List_Lexorder"
begin

section \<open>Shared data model\<close>

text \<open>
  The three modules \<^verbatim>\<open>proxy_manager.py\<close>, \<^verbatim>\<open>account_manager.py\<close> and
  \<^verbatim>\<open>engagement_scheduler.py\<close> share one SQLite database with the tables
  \<^verbatim>\<open>accounts\<close>, \<^verbatim>\<open>proxies\<close> and \<^verbatim>\<open>activity_log\<close>
  (\<^verbatim>\<open>AccountManager._init_database\<close>). A table is the list of its rows in rowid
  order, a nullable column is an \<open>option\<close>, a TEXT column a \<open>string\<close>, an INTEGER
  column an \<open>int\<close>. A \<open>char\<close> is a code point below 256, so the model covers the
  strings made of such code points. Python strings compare by code point, which on
  \<open>string\<close> is the lexicographic order of \<^verbatim>\<open>List_Lexorder\<close> over \<^verbatim>\<open>Char_ord\<close>.
\<close>

text \<open>The exceptions that the modelled code paths can raise.\<close>

datatype error =
    TypeError
  | ValueError
  | OverflowError
  | InvalidToken
  | AttributeError
  | IndexError
  | IntegrityError

text \<open>
  \<^verbatim>\<open>cryptography.fernet.Fernet\<close> is an external library: the cipher suite built from
  the configured key is a parameter of the model. \<open>decrypt\<close> is \<open>None\<close> where the
  library raises \<^verbatim>\<open>InvalidToken\<close>. The \<^verbatim>\<open>.encode()\<close> / \<^verbatim>\<open>.decode()\<close> calls around
  it convert between text and bytes, which coincide on \<open>string\<close>.
\<close>

record cipher_suite =
  encrypt :: "string \<Rightarrow> string"
  decrypt :: "string \<Rightarrow> string option"

text \<open>Table \<^verbatim>\<open>proxies\<close>.\<close>

record proxy_row =
  p_id :: int
  p_ip :: "string option"
  p_port :: int
  p_username :: "string option"
  p_password_encrypted :: "string option"
  p_protocol :: "string option"
  p_last_used :: "string option"
  p_status :: string
  p_failure_count :: int

text \<open>
  The dictionary that \<^verbatim>\<open>get_available_proxies\<close> builds for a row: the nine columns
  and the key \<^verbatim>\<open>'password'\<close> with the decrypted secret.
\<close>

record proxy = proxy_row +
  password :: "string option"

text \<open>Table \<^verbatim>\<open>accounts\<close>.\<close>

record account_row =
  a_id :: int
  a_username :: "string option"
  a_password_encrypted :: "string option"
  a_email :: "string option"
  a_creation_date :: "string option"
  a_last_login :: "string option"
  a_proxy_id :: "int option"
  a_user_agent :: "string option"
  a_account_status :: "string option"
  a_karma_post :: int
  a_karma_comment :: int
  a_last_post_date :: "string option"
  a_last_comment_date :: "string option"
  a_total_posts :: int
  a_total_comments :: int
  a_session_data :: "string option"
  a_metadata :: "string option"

text \<open>Table \<^verbatim>\<open>activity_log\<close>.\<close>

record activity_row =
  l_id :: int
  l_account_id :: int
  l_activity_type :: string
  l_activity_date :: string
  l_subreddit :: string
  l_post_id :: "string option"
  l_comment_id :: "string option"
  l_status :: string
  l_details :: "string option"

text \<open>
  The database. Every table has an \<^verbatim>\<open>INTEGER PRIMARY KEY AUTOINCREMENT\<close> column; the
  \<open>seq\<close> fields are the entries of \<^verbatim>\<open>sqlite_sequence\<close> (the largest rowid each table
  has ever held).
\<close>

record db =
  proxies :: "proxy_row list"
  accounts :: "account_row list"
  activity_log :: "activity_row list"
  seq_proxies :: int
  seq_accounts :: int
  seq_activity_log :: int

text \<open>The rowid that AUTOINCREMENT gives the next inserted row.\<close>

definition next_rowid :: "int \<Rightarrow> int list \<Rightarrow> int" where
  "next_rowid seq ids = fold max ids seq + 1"

text \<open>Python truthiness of an optional string: \<^verbatim>\<open>None\<close> and \<^verbatim>\<open>''\<close> are false.\<close>

fun truthy :: "string option \<Rightarrow> bool" where
  "truthy None = False"
| "truthy (Some s) = (s \<noteq> [])"

text \<open>A loop that builds a list and stops at the first exception.\<close>

fun map_result :: "('a \<Rightarrow> error + 'b) \<Rightarrow> 'a list \<Rightarrow> error + 'b list" where
  "map_result f [] = Inr []"
| "map_result f (x # xs) =
     (case f x of
        Inl e \<Rightarrow> Inl e
      | Inr y \<Rightarrow> (case map_result f xs of Inl e \<Rightarrow> Inl e | Inr ys \<Rightarrow> Inr (y # ys)))"

section \<open>Proxy manager\<close>

subsection \<open>\<^verbatim>\<open>get_available_proxies\<close>\<close>

text \<open>The WHERE clause \<^verbatim>\<open>status = 'active' AND failure_count < 5\<close>.\<close>

definition available :: "proxy_row \<Rightarrow> bool" where
  "available r \<longleftrightarrow> p_status r = ''active'' \<and> p_failure_count r < 5"

text \<open>
  The body of the loop over the fetched rows: the row becomes a dictionary, and its secret
  is decrypted when \<^verbatim>\<open>password_encrypted\<close> is truthy.
\<close>

definition proxy_of_row :: "cipher_suite \<Rightarrow> proxy_row \<Rightarrow> error + proxy" where
  "proxy_of_row cs r =
     (if truthy (p_password_encrypted r) then
        (case decrypt cs (the (p_password_encrypted r)) of
           None \<Rightarrow> Inl InvalidToken
         | Some pw \<Rightarrow> Inr (proxy_row.extend r (proxy.fields (Some pw))))
      else Inr (proxy_row.extend r (proxy.fields None)))"

definition get_available_proxies :: "cipher_suite \<Rightarrow> db \<Rightarrow> error + proxy list" where
  "get_available_proxies cs d = map_result (proxy_of_row cs) (filter available (proxies d))"

subsection \<open>\<^verbatim>\<open>get_next_proxy\<close>\<close>

text \<open>The sort key \<^verbatim>\<open>p['last_used'] if p['last_used'] else '1970-01-01'\<close>.\<close>

definition last_used_key :: "'a proxy_row_scheme \<Rightarrow> string" where
  "last_used_key p = (if truthy (p_last_used p) then the (p_last_used p) else ''1970-01-01'')"

text \<open>\<^verbatim>\<open>UPDATE proxies SET last_used = ? WHERE id = ?\<close>.\<close>

definition update_last_used :: "string \<Rightarrow> int \<Rightarrow> db \<Rightarrow> db" where
  "update_last_used now i d =
     d\<lparr>proxies := map (\<lambda>r. if p_id r = i then r\<lparr>p_last_used := Some now\<rparr> else r) (proxies d)\<rparr>"

text \<open>
  \<^verbatim>\<open>list.sort\<close> is stable, as \<open>sort_key\<close> is. The result is the exception, or the
  returned value (\<^verbatim>\<open>None\<close> or the dictionary) with the database the call leaves.
  \<open>now\<close> is \<^verbatim>\<open>datetime.now().isoformat()\<close>.
\<close>

definition get_next_proxy :: "cipher_suite \<Rightarrow> string \<Rightarrow> db \<Rightarrow> error + (proxy option \<times> db)" where
  "get_next_proxy cs now d =
     (case get_available_proxies cs d of
        Inl e \<Rightarrow> Inl e
      | Inr available_proxies \<Rightarrow>
          if available_proxies = [] then Inr (None, d)
          else
            let proxy = hd (sort_key last_used_key available_proxies)
            in Inr (Some proxy, update_last_used now (p_id proxy) d))"

subsection \<open>\<^verbatim>\<open>_increment_failure_count\<close> and \<^verbatim>\<open>reset_failure_count\<close>\<close>

text \<open>
  In an SQL UPDATE every right-hand side reads the row as it was before the statement, so
  the CASE tests the old counter plus one.
\<close>

definition increment_failure_count :: "int \<Rightarrow> db \<Rightarrow> db" where
  "increment_failure_count proxy_id d =
     d\<lparr>proxies :=
         map (\<lambda>r. if p_id r = proxy_id
                   then r\<lparr>p_failure_count := p_failure_count r + 1,
                          p_status := (if p_failure_count r + 1 \<ge> 5 then ''inactive''
                                       else p_status r)\<rparr>
                   else r)
             (proxies d)\<rparr>"

definition reset_failure_count :: "int \<Rightarrow> db \<Rightarrow> db" where
  "reset_failure_count proxy_id d =
     d\<lparr>proxies :=
         map (\<lambda>r. if p_id r = proxy_id
                   then r\<lparr>p_failure_count := 0, p_status := ''active''\<rparr>
                   else r)
             (proxies d)\<rparr>"

subsection \<open>\<^verbatim>\<open>load_proxies\<close>\<close>

text \<open>
  A row of \<^verbatim>\<open>csv.DictReader\<close>: a dictionary from the header's field names to the
  fields of the line. A line shorter than the header leaves the missing fields \<^verbatim>\<open>None\<close>.
  \<open>row_get\<close> is \<^verbatim>\<open>row.get(key)\<close>.
\<close>

type_synonym csv_row = "string \<rightharpoonup> string option"

definition row_get :: "csv_row \<Rightarrow> string \<Rightarrow> string option" where
  "row_get row k = (case row k of None \<Rightarrow> None | Some v \<Rightarrow> v)"

text \<open>
  Python's \<^verbatim>\<open>int(s)\<close> on a string. The whitespace it drops at both ends is the ASCII
  whitespace of the C parser (tab, line feed, vertical tab, form feed, carriage return,
  space) and the whitespace beyond ASCII, which is first turned into spaces: below 256
  these are the code points 0x85 and 0xA0. The separators 0x1C to 0x1F are not dropped.
  Then one sign is allowed, then come decimal digits, where single underscores may stand
  between digits. Anything else raises \<^verbatim>\<open>ValueError\<close>, as does a numeral of more than
  4300 digits (the default limit of the interpreter).
\<close>

definition is_space :: "char \<Rightarrow> bool" where
  "is_space c \<longleftrightarrow> c \<in> set [CHR 0x09, CHR 0x0A, CHR 0x0B, CHR 0x0C, CHR 0x0D, CHR 0x20,
                              CHR 0x85, CHR 0xA0]"

definition is_digit :: "char \<Rightarrow> bool" where
  "is_digit c \<longleftrightarrow> c \<in> set ''0123456789''"

definition digit_val :: "char \<Rightarrow> int" where
  "digit_val c = int (of_char c) - 48"

definition strip :: "string \<Rightarrow> string" where
  "strip s = rev (dropWhile is_space (rev (dropWhile is_space s)))"

fun digits_value :: "int \<Rightarrow> string \<Rightarrow> int option" where
  "digits_value acc [] = Some acc"
| "digits_value acc (c # cs) =
     (if is_digit c then digits_value (10 * acc + digit_val c) cs
      else if c = CHR ''_'' \<and> cs \<noteq> [] \<and> is_digit (hd cs) then digits_value acc cs
      else None)"

definition py_int :: "string \<Rightarrow> error + int" where
  "py_int s =
     (let t = strip s;
          negative = (t \<noteq> [] \<and> hd t = CHR ''-'');
          body = (if t \<noteq> [] \<and> (hd t = CHR ''-'' \<or> hd t = CHR ''+'') then tl t else t)
      in if body = [] \<or> \<not> is_digit (hd body) then Inl ValueError
         else if length (filter is_digit body) > 4300 then Inl ValueError
         else (case digits_value 0 body of
                 None \<Rightarrow> Inl ValueError
               | Some n \<Rightarrow> Inr (if negative then - n else n)))"

text \<open>
  \<^verbatim>\<open>int(row.get('port', 0))\<close>: the default 0 when the header has no \<^verbatim>\<open>port\<close>
  field, \<^verbatim>\<open>TypeError\<close> on \<^verbatim>\<open>None\<close>. Binding the value to the statement raises
  \<^verbatim>\<open>OverflowError\<close> outside SQLite's 64-bit integers.
\<close>

definition row_port :: "csv_row \<Rightarrow> error + int" where
  "row_port row =
     (case row ''port'' of
        None \<Rightarrow> Inr 0
      | Some None \<Rightarrow> Inl TypeError
      | Some (Some s) \<Rightarrow>
          (case py_int s of
             Inl e \<Rightarrow> Inl e
           | Inr n \<Rightarrow> if - (2 ^ 63) \<le> n \<and> n < 2 ^ 63 then Inr n else Inl OverflowError))"

text \<open>
  \<^verbatim>\<open>SELECT id FROM proxies WHERE ip = ? AND port = ?\<close>. A comparison with NULL is never
  true in SQL, neither for a NULL column nor for a \<^verbatim>\<open>None\<close> parameter.
\<close>

definition select_proxy :: "string option \<Rightarrow> int \<Rightarrow> db \<Rightarrow> int list" where
  "select_proxy ip port d =
     map p_id (filter (\<lambda>r. ip \<noteq> None \<and> p_ip r = ip \<and> p_port r = port) (proxies d))"

text \<open>\<^verbatim>\<open>row.get('protocol', 'http')\<close>.\<close>

definition row_protocol :: "csv_row \<Rightarrow> string option" where
  "row_protocol row = (case row ''protocol'' of None \<Rightarrow> Some ''http'' | Some v \<Rightarrow> v)"

text \<open>The body of the loop over the rows, inside the transaction.\<close>

definition load_row :: "cipher_suite \<Rightarrow> csv_row \<Rightarrow> db \<Rightarrow> error + db" where
  "load_row cs row d =
     (case row_port row of
        Inl e \<Rightarrow> Inl e
      | Inr port \<Rightarrow>
          if select_proxy (row_get row ''ip'') port d = [] then
            let password_encrypted =
                  (if truthy (row_get row ''password'')
                   then Some (encrypt cs (the (row_get row ''password''))) else None);
                rowid = next_rowid (seq_proxies d) (map p_id (proxies d))
            in Inr (d\<lparr>proxies := proxies d @
                         [\<lparr>p_id = rowid, p_ip = row_get row ''ip'', p_port = port,
                           p_username = row_get row ''username'',
                           p_password_encrypted = password_encrypted,
                           p_protocol = row_protocol row, p_last_used = None,
                           p_status = ''active'', p_failure_count = 0\<rparr>],
                     seq_proxies := rowid\<rparr>)
          else Inr d)"




section \<open>Account manager\<close>

text \<open>
  \<^verbatim>\<open>AccountManager._encrypt\<close> and \<^verbatim>\<open>_decrypt\<close>. On a NULL column \<^verbatim>\<open>_decrypt\<close> calls
  \<^verbatim>\<open>None.encode()\<close>, an \<^verbatim>\<open>AttributeError\<close>.
\<close>

definition am_encrypt :: "cipher_suite \<Rightarrow> string \<Rightarrow> string" where
  "am_encrypt cs text = encrypt cs text"

definition am_decrypt :: "cipher_suite \<Rightarrow> string option \<Rightarrow> error + string" where
  "am_decrypt cs encrypted_text =
     (case encrypted_text of
        None \<Rightarrow> Inl AttributeError
      | Some t \<Rightarrow> (case decrypt cs t of None \<Rightarrow> Inl InvalidToken | Some p \<Rightarrow> Inr p))"

text \<open>
  The dictionary of \<^verbatim>\<open>get_account_details\<close>: the columns of the row and the key
  \<^verbatim>\<open>'password'\<close>. The key \<^verbatim>\<open>'password_encrypted'\<close> is deleted from it, which the model
  writes as \<open>None\<close> in that field.
\<close>

record account = account_row +
  a_password :: string

definition get_account_details :: "cipher_suite \<Rightarrow> string \<Rightarrow> db \<Rightarrow> error + account option" where
  "get_account_details cs username d =
     (case find (\<lambda>r. a_username r = Some username) (accounts d) of
        None \<Rightarrow> Inr None
      | Some r \<Rightarrow>
          (case am_decrypt cs (a_password_encrypted r) of
             Inl e \<Rightarrow> Inl e
           | Inr pw \<Rightarrow>
               Inr (Some (account_row.extend (r\<lparr>a_password_encrypted := None\<rparr>)
                            (account.fields pw)))))"

text \<open>
  \<^verbatim>\<open>_save_account\<close>. The column \<^verbatim>\<open>username\<close> is UNIQUE: inserting a name that is
  stored already raises \<^verbatim>\<open>IntegrityError\<close>. \<open>user_agent\<close> is the configured
  \<^verbatim>\<open>reddit.user_agent\<close>, \<open>now\<close> the current time, \<open>proxy_id\<close> is \<^verbatim>\<open>proxy['id']\<close>.
\<close>

definition save_account ::
  "cipher_suite \<Rightarrow> string option \<Rightarrow> string \<Rightarrow> string \<Rightarrow> string \<Rightarrow> string \<Rightarrow> int \<Rightarrow> db
     \<Rightarrow> error + db" where
  "save_account cs user_agent now username passwd email proxy_id d =
     (let encrypted_password = am_encrypt cs passwd;
          rowid = next_rowid (seq_accounts d) (map a_id (accounts d))
      in if \<exists>r\<in>set (accounts d). a_username r = Some username then Inl IntegrityError
         else Inr (d\<lparr>accounts := accounts d @
                       [\<lparr>a_id = rowid, a_username = Some username,
                         a_password_encrypted = Some encrypted_password,
                         a_email = Some email, a_creation_date = Some now,
                         a_last_login = Some now, a_proxy_id = Some proxy_id,
                         a_user_agent = user_agent, a_account_status = Some ''active'',
                         a_karma_post = 0, a_karma_comment = 0, a_last_post_date = None,
                         a_last_comment_date = None, a_total_posts = 0, a_total_comments = 0,
                         a_session_data = None, a_metadata = None\<rparr>],
                   seq_accounts := rowid\<rparr>))"

text \<open>
  \<^verbatim>\<open>export_accounts\<close>, up to the data frame that is written to the file: the selected
  columns without \<^verbatim>\<open>id\<close>, and the column \<^verbatim>\<open>password\<close> looked up by id in the dictionary
  of decrypted passwords (in a dictionary comprehension a later entry replaces an earlier
  one with the same key).
\<close>

record export_row =
  e_username :: "string option"
  e_email :: "string option"
  e_creation_date :: "string option"
  e_last_login :: "string option"
  e_proxy_id :: "int option"
  e_account_status :: "string option"
  e_karma_post :: int
  e_karma_comment :: int
  e_last_post_date :: "string option"
  e_last_comment_date :: "string option"
  e_total_posts :: int
  e_total_comments :: int
  e_password :: "string option"

definition export_accounts :: "cipher_suite \<Rightarrow> db \<Rightarrow> error + export_row list" where
  "export_accounts cs d =
     (case map_result (\<lambda>r. case am_decrypt cs (a_password_encrypted r) of
                               Inl e \<Rightarrow> Inl e | Inr pw \<Rightarrow> Inr (a_id r, pw)) (accounts d) of
        Inl e \<Rightarrow> Inl e
      | Inr entries \<Rightarrow>
          let passwords = map_of (rev entries)
          in Inr (map (\<lambda>r. \<lparr>e_username = a_username r, e_email = a_email r,
                             e_creation_date = a_creation_date r, e_last_login = a_last_login r,
                             e_proxy_id = a_proxy_id r, e_account_status = a_account_status r,
                             e_karma_post = a_karma_post r, e_karma_comment = a_karma_comment r,
                             e_last_post_date = a_last_post_date r,
                             e_last_comment_date = a_last_comment_date r,
                             e_total_posts = a_total_posts r,
                             e_total_comments = a_total_comments r,
                             e_password = passwords (a_id r)\<rparr>)
                       (accounts d)))"

section \<open>Engagement scheduler\<close>

text \<open>
  The configuration sections the jobs read. A frequency entry may lack a key, in which
  case \<^verbatim>\<open>.get(key, default)\<close> supplies the default. Hours are real numbers.
\<close>

record frequency =
  min_hours :: "real option"
  max_hours :: "real option"
  variance_percent :: "real option"

record config =
  post_frequency :: frequency
  comment_frequency :: frequency
  target_subreddits :: "string list"
  activity_start :: "int option"
  activity_end :: "int option"

text \<open>
  What a run of a job reads from outside the program: the clock, the random source and the
  answers of \<^verbatim>\<open>RedditClient\<close>, whose \<^verbatim>\<open>login\<close>, \<^verbatim>\<open>submit_post\<close>,
  \<^verbatim>\<open>get_trending_posts\<close> and \<^verbatim>\<open>submit_comment\<close> catch every exception themselves and
  answer with a failure value.
\<close>

record env =
  current_hour :: int
  now_proxy :: string
  now_activity :: string
  now_account :: string
  login_success :: bool
  subreddit_index :: nat
  post_id :: "string option"
  trending_posts :: "string list"
  post_index :: nat
  comment_id :: "string option"
  uniform_draw :: real
  sign_index :: nat

text \<open>What a job returns: \<^verbatim>\<open>schedule.CancelJob\<close>, nothing, or the hours it computed.\<close>

datatype job_return = CancelJob | ReturnNone | Hours real

text \<open>
  \<^verbatim>\<open>random.choice(seq)\<close> raises \<^verbatim>\<open>IndexError\<close> on an empty sequence; the index stands
  for the draw. \<^verbatim>\<open>random.uniform(a, b)\<close> is \<^verbatim>\<open>a + (b - a) * random()\<close>.
\<close>

definition choice :: "'a list \<Rightarrow> nat \<Rightarrow> error + 'a" where
  "choice xs i = (if xs = [] then Inl IndexError else Inr (xs ! (i mod length xs)))"

definition uniform :: "real \<Rightarrow> real \<Rightarrow> real \<Rightarrow> real" where
  "uniform a b u = a + (b - a) * u"

definition is_within_activity_hours :: "config \<Rightarrow> int \<Rightarrow> bool" where
  "is_within_activity_hours cfg hour =
     (let start_hour = (case activity_start cfg of None \<Rightarrow> 8 | Some h \<Rightarrow> h);
          end_hour = (case activity_end cfg of None \<Rightarrow> 23 | Some h \<Rightarrow> h)
      in start_hour \<le> hour \<and> hour \<le> end_hour)"

text \<open>\<^verbatim>\<open>_log_activity\<close>; \<^verbatim>\<open>details\<close> is never passed, so the column is NULL.\<close>

definition log_activity ::
  "string \<Rightarrow> int \<Rightarrow> string \<Rightarrow> string \<Rightarrow> string option \<Rightarrow> string option \<Rightarrow> string \<Rightarrow> db \<Rightarrow> db" where
  "log_activity now account_id activity_type subreddit pid cid status d =
     (let rowid = next_rowid (seq_activity_log d) (map l_id (activity_log d))
      in d\<lparr>activity_log := activity_log d @
              [\<lparr>l_id = rowid, l_account_id = account_id, l_activity_type = activity_type,
                l_activity_date = now, l_subreddit = subreddit, l_post_id = pid,
                l_comment_id = cid, l_status = status, l_details = None\<rparr>],
           seq_activity_log := rowid\<rparr>)"

text \<open>
  The closing block of both jobs: the next interval from the frequency entry, with the
  defaults of the job.
\<close>

definition next_hours :: "frequency \<Rightarrow> real \<Rightarrow> real \<Rightarrow> real \<Rightarrow> env \<Rightarrow> real" where
  "next_hours f default_min default_max default_variance ev =
     (let min_hours = (case min_hours f of None \<Rightarrow> default_min | Some v \<Rightarrow> v);
          max_hours = (case max_hours f of None \<Rightarrow> default_max | Some v \<Rightarrow> v);
          variance = (case variance_percent f of None \<Rightarrow> default_variance | Some v \<Rightarrow> v) / 100;
          base_hours = uniform min_hours max_hours (uniform_draw ev);
          variance_hours = base_hours * variance * ([- 1, 1] ! (sign_index ev mod 2))
      in max min_hours (base_hours + variance_hours))"

text \<open>
  \<^verbatim>\<open>_create_post_job\<close>. The result is the exception or the returned value, and the
  database as the run leaves it (every statement is committed at once, so writes made
  before an exception stay).
\<close>

definition create_post_job ::
  "cipher_suite \<Rightarrow> config \<Rightarrow> env \<Rightarrow> int \<Rightarrow> string \<Rightarrow> db \<Rightarrow> (error + job_return) \<times> db" where
  "create_post_job cs cfg ev account_id username d =
     (case get_account_details cs username d of
        Inl e \<Rightarrow> (Inl e, d)
      | Inr None \<Rightarrow> (Inr CancelJob, d)
      | Inr (Some account_details) \<Rightarrow>
          if \<not> is_within_activity_hours cfg (current_hour ev) then (Inr ReturnNone, d)
          else
            (case get_next_proxy cs (now_proxy ev) d of
               Inl e \<Rightarrow> (Inl e, d)
             | Inr (None, d1) \<Rightarrow> (Inr ReturnNone, d1)
             | Inr (Some proxy, d1) \<Rightarrow>
                 if \<not> login_success ev then (Inr ReturnNone, d1)
                 else
                   (case choice (target_subreddits cfg) (subreddit_index ev) of
                      Inl e \<Rightarrow> (Inl e, d1)
                    | Inr subreddit \<Rightarrow>
                        let d2 =
                          (if truthy (post_id ev) then
                             (let d' = log_activity (now_activity ev) account_id ''post''
                                         subreddit (post_id ev) None ''success'' d1
                              in d'\<lparr>accounts :=
                                     map (\<lambda>r. if a_id r = account_id
                                               then r\<lparr>a_last_post_date := Some (now_account ev),
                                                      a_total_posts := a_total_posts r + 1\<rparr>
                                               else r)
                                         (accounts d')\<rparr>)
                           else d1)
                        in (Inr (Hours (next_hours (post_frequency cfg) 12 48 20 ev)), d2))))"

text \<open>\<^verbatim>\<open>_create_comment_job\<close>.\<close>

definition create_comment_job ::
  "cipher_suite \<Rightarrow> config \<Rightarrow> env \<Rightarrow> int \<Rightarrow> string \<Rightarrow> db \<Rightarrow> (error + job_return) \<times> db" where
  "create_comment_job cs cfg ev account_id username d =
     (case get_account_details cs username d of
        Inl e \<Rightarrow> (Inl e, d)
      | Inr None \<Rightarrow> (Inr CancelJob, d)
      | Inr (Some account_details) \<Rightarrow>
          if \<not> is_within_activity_hours cfg (current_hour ev) then (Inr ReturnNone, d)
          else
            (case get_next_proxy cs (now_proxy ev) d of
               Inl e \<Rightarrow> (Inl e, d)
             | Inr (None, d1) \<Rightarrow> (Inr ReturnNone, d1)
             | Inr (Some proxy, d1) \<Rightarrow>
                 if \<not> login_success ev then (Inr ReturnNone, d1)
                 else
                   (case choice (target_subreddits cfg) (subreddit_index ev) of
                      Inl e \<Rightarrow> (Inl e, d1)
                    | Inr subreddit \<Rightarrow>
                        let d2 =
                          (if trending_posts ev \<noteq> [] \<and> truthy (comment_id ev) then
                             (let post = trending_posts ev
                                           ! (post_index ev mod length (trending_posts ev));
                                  d' = log_activity (now_activity ev) account_id ''comment''
                                         subreddit (Some post) (comment_id ev) ''success'' d1
                              in d'\<lparr>accounts :=
                                     map (\<lambda>r. if a_id r = account_id
                                               then r\<lparr>a_last_comment_date := Some (now_account ev),
                                                      a_total_comments := a_total_comments r + 1\<rparr>
                                               else r)
                                         (accounts d')\<rparr>)
                           else d1)
                        in (Inr (Hours (next_hours (comment_frequency cfg) 4 24 30 ev)), d2))))"

text \<open>
  The value a job returns once the account was found, as a function of the database and
  of the interval \<open>h\<close> that its closing block computes.
\<close>

definition post_outcome ::
  "cipher_suite \<Rightarrow> config \<Rightarrow> env \<Rightarrow> db \<Rightarrow> real \<Rightarrow> error + job_return" where
  "post_outcome cs cfg ev d h =
     (if \<not> is_within_activity_hours cfg (current_hour ev) then Inr ReturnNone
      else (case get_next_proxy cs (now_proxy ev) d of
              Inl e \<Rightarrow> Inl e
            | Inr (None, d1) \<Rightarrow> Inr ReturnNone
            | Inr (Some proxy, d1) \<Rightarrow>
                if \<not> login_success ev then Inr ReturnNone
                else (case choice (target_subreddits cfg) (subreddit_index ev) of
                        Inl e \<Rightarrow> Inl e
                      | Inr subreddit \<Rightarrow> Inr (Hours h))))"

section \<open>Example states\<close>

text \<open>
  Concrete ciphers, rows, configurations and databases on which the properties below are
  evaluated. The example cipher marks a token with a prefix, so that a string without the
  prefix is a token that does not decrypt.
\<close>

definition example_cipher :: cipher_suite where
  "example_cipher =
     \<lparr>encrypt = (\<lambda>s. ''tok:'' @ s),
      decrypt = (\<lambda>t. if take 4 t = ''tok:'' then Some (drop 4 t) else None)\<rparr>"

definition P1 :: proxy_row where
  "P1 = \<lparr>p_id = 1, p_ip = Some ''10.0.0.1'', p_port = 8080, p_username = None,
          p_password_encrypted = None, p_protocol = Some ''http'', p_last_used = None,
          p_status = ''active'', p_failure_count = 0\<rparr>"

definition P2 :: proxy_row where
  "P2 = \<lparr>p_id = 2, p_ip = Some ''10.0.0.2'', p_port = 8080, p_username = Some ''u'',
          p_password_encrypted = Some ''tok:pw'', p_protocol = Some ''http'',
          p_last_used = Some ''2026-11-04T10:00:00'',
          p_status = ''active'', p_failure_count = 0\<rparr>"

definition P3 :: proxy_row where
  "P3 = \<lparr>p_id = 3, p_ip = Some ''10.0.0.3'', p_port = 3128, p_username = None,
          p_password_encrypted = None, p_protocol = Some ''http'', p_last_used = None,
          p_status = ''inactive'', p_failure_count = 5\<rparr>"

definition example_pool :: db where
  "example_pool = \<lparr>proxies = [P2, P1, P3], accounts = [], activity_log = [],
                    seq_proxies = 3, seq_accounts = 0, seq_activity_log = 0\<rparr>"

definition exhausted_pool :: db where
  "exhausted_pool = \<lparr>proxies = [P3], accounts = [], activity_log = [],
                    seq_proxies = 3, seq_accounts = 0, seq_activity_log = 0\<rparr>"

definition empty_db :: db where
  "empty_db = \<lparr>proxies = [], accounts = [], activity_log = [],
                seq_proxies = 0, seq_accounts = 0, seq_activity_log = 0\<rparr>"

definition good_row :: csv_row where
  "good_row = [''ip'' \<mapsto> Some ''10.0.0.9'', ''port'' \<mapsto> Some ''3128'']"


definition good_proxy :: proxy_row where
  "good_proxy = \<lparr>p_id = 1, p_ip = Some ''10.0.0.9'', p_port = 3128, p_username = None,
          p_password_encrypted = None, p_protocol = Some ''http'', p_last_used = None,
          p_status = ''active'', p_failure_count = 0\<rparr>"

definition example_config :: config where
  "example_config =
     \<lparr>post_frequency = \<lparr>min_hours = Some 12, max_hours = Some 48, variance_percent = Some 20\<rparr>,
      comment_frequency = \<lparr>min_hours = None, max_hours = None, variance_percent = None\<rparr>,
      target_subreddits = [''AskReddit'', ''science''],
      activity_start = Some 8, activity_end = Some 23\<rparr>"

definition example_env :: env where
  "example_env =
     \<lparr>current_hour = 9, now_proxy = ''2026-11-04T09:00:00'',
      now_activity = ''2026-11-04T09:01:00'', now_account = ''2026-11-04T09:01:01'',
      login_success = True, subreddit_index = 0, post_id = Some ''abc123'',
      trending_posts = [''t3_x''], post_index = 0, comment_id = Some ''c1'',
      uniform_draw = 0, sign_index = 0\<rparr>"

definition suspended_account :: account_row where
  "suspended_account =
     \<lparr>a_id = 1, a_username = Some ''alice'', a_password_encrypted = Some ''tok:s3cret'',
      a_email = Some ''alice@example.org'', a_creation_date = Some ''2026-01-01T00:00:00'',
      a_last_login = Some ''2026-01-01T00:00:00'', a_proxy_id = Some 1,
      a_user_agent = None, a_account_status = Some ''suspended'',
      a_karma_post = 0, a_karma_comment = 0, a_last_post_date = None,
      a_last_comment_date = None, a_total_posts = 0, a_total_comments = 0,
      a_session_data = None, a_metadata = None\<rparr>"

definition job_db :: db where
  "job_db = \<lparr>proxies = [P2, P1, P3], accounts = [suspended_account], activity_log = [],
              seq_proxies = 3, seq_accounts = 1, seq_activity_log = 0\<rparr>"



definition P4 :: proxy_row where
  "P4 = \<lparr>p_id = 4, p_ip = Some ''10.0.0.4'', p_port = 8080, p_username = Some ''u'',
          p_password_encrypted = Some ''garbage'', p_protocol = Some ''http'',
          p_last_used = Some ''2026-11-03T10:00:00'',
          p_status = ''active'', p_failure_count = 0\<rparr>"

definition undecryptable_pool :: db where
  "undecryptable_pool = \<lparr>proxies = [P1, P4], accounts = [], activity_log = [],
                    seq_proxies = 4, seq_accounts = 0, seq_activity_log = 0\<rparr>"

definition P5 :: proxy_row where
  "P5 = \<lparr>p_id = 5, p_ip = Some ''10.0.0.5'', p_port = 8080, p_username = None,
          p_password_encrypted = None, p_protocol = Some ''http'',
          p_last_used = Some ''2026-11-03T10:00:00'',
          p_status = ''active'', p_failure_count = 0\<rparr>"

definition used_pool :: db where
  "used_pool = \<lparr>proxies = [P2, P5], accounts = [], activity_log = [],
                 seq_proxies = 5, seq_accounts = 0, seq_activity_log = 0\<rparr>"





section \<open>Properties of the proxy manager\<close>

lemma map_result_Inr_list_all2:
  "map_result f xs = Inr ys \<Longrightarrow> list_all2 (\<lambda>x y. f x = Inr y) xs ys"
  by (induction xs arbitrary: ys) (auto split: sum.splits)

lemma map_result_total:
  "(\<forall>x\<in>set xs. \<exists>y. f x = Inr y) \<Longrightarrow> \<exists>ys. map_result f xs = Inr ys"
  by (induction xs) (auto split: sum.splits)

lemma map_result_Nil_iff: "map_result f xs = Inr [] \<longleftrightarrow> xs = []"
  by (cases xs) (auto split: sum.splits)

lemma proxy_of_row_truncate:
  "proxy_of_row cs r = Inr p \<Longrightarrow> proxy_row.truncate p = r"
  by (auto simp: proxy_of_row_def proxy_row.defs proxy.defs split: if_splits option.splits)

lemma truncate_fields:
  "proxy_row.truncate (p::proxy) = r \<Longrightarrow>
     p_id p = p_id r \<and> p_status p = p_status r \<and> p_failure_count p = p_failure_count r
     \<and> p_last_used p = p_last_used r \<and> last_used_key p = last_used_key r"
  by (auto simp: proxy_row.defs last_used_key_def)

lemma get_available_proxies_rows:
  assumes "get_available_proxies cs d = Inr av"
  shows "map proxy_row.truncate av = filter available (proxies d)"
proof -
  have "list_all2 (\<lambda>r p. proxy_of_row cs r = Inr p) (filter available (proxies d)) av"
    using assms unfolding get_available_proxies_def by (rule map_result_Inr_list_all2)
  then have "list_all2 (\<lambda>r p. proxy_row.truncate p = r) (filter available (proxies d)) av"
    by (rule list_all2_mono) (simp add: proxy_of_row_truncate)
  then show ?thesis
    by (induction rule: list_all2_induct) auto
qed

lemma get_next_proxy_Some:
  assumes "get_next_proxy cs now d = Inr (Some p, d')"
  shows "\<exists>av. get_available_proxies cs d = Inr av \<and> av \<noteq> [] \<and> p = hd (sort_key last_used_key av)
           \<and> p \<in> set av \<and> d' = update_last_used now (p_id p) d"
proof -
  from assms obtain av where av: "get_available_proxies cs d = Inr av"
    by (auto simp: get_next_proxy_def split: sum.splits)
  with assms have ne: "av \<noteq> []" and p: "p = hd (sort_key last_used_key av)"
    and d': "d' = update_last_used now (p_id p) d"
    by (auto simp: get_next_proxy_def Let_def split: if_splits)
  from ne have "sort_key last_used_key av \<noteq> []"
    by (metis set_sort set_empty)
  then have "hd (sort_key last_used_key av) \<in> set (sort_key last_used_key av)"
    by (rule hd_in_set)
  then have "p \<in> set av" using p by simp
  with av ne p d' show ?thesis by blast
qed

lemma hd_sort_key_least:
  assumes "x \<in> set xs"
  shows "f (hd (sort_key f xs)) \<le> f x"
proof -
  have s: "sorted (map f (sort_key f xs))" by (rule sorted_sort_key)
  from assms have x: "x \<in> set (sort_key f xs)" by simp
  then obtain y ys where ys: "sort_key f xs = y # ys" by (cases "sort_key f xs") auto
  with s x show ?thesis by auto
qed

lemma get_next_proxy_row:
  assumes "get_next_proxy cs now d = Inr (Some p, d')"
  shows "proxy_row.truncate p \<in> set (proxies d) \<and> available (proxy_row.truncate p)"
proof -
  from get_next_proxy_Some [OF assms] obtain av where
    av: "get_available_proxies cs d = Inr av" and p: "p \<in> set av" by blast
  from p have "proxy_row.truncate p \<in> set (map proxy_row.truncate av)" by simp
  then show ?thesis
    unfolding get_available_proxies_rows [OF av] by simp
qed

lemma proxy_of_row_total:
  "truthy (p_password_encrypted r) \<longrightarrow> decrypt cs (the (p_password_encrypted r)) \<noteq> None
   \<Longrightarrow> \<exists>p. proxy_of_row cs r = Inr p"
  by (auto simp: proxy_of_row_def)

lemma get_next_proxy_none_available:
  assumes "\<forall>r\<in>set (proxies d). \<not> available r"
  shows "get_next_proxy cs now d = Inr (None, d)"
proof -
  from assms have "filter available (proxies d) = []" by (simp add: filter_empty_conv)
  then show ?thesis by (simp add: get_next_proxy_def get_available_proxies_def)
qed

lemma get_next_proxy_returns:
  assumes ex: "\<exists>r\<in>set (proxies d). available r"
    and dec: "\<forall>r\<in>set (proxies d). available r \<and> truthy (p_password_encrypted r)
                \<longrightarrow> decrypt cs (the (p_password_encrypted r)) \<noteq> None"
  shows "\<exists>p d'. get_next_proxy cs now d = Inr (Some p, d')"
proof -
  have "\<forall>r\<in>set (filter available (proxies d)). \<exists>p. proxy_of_row cs r = Inr p"
    using dec by (auto intro!: proxy_of_row_total)
  then obtain av where av: "get_available_proxies cs d = Inr av"
    unfolding get_available_proxies_def using map_result_total by blast
  from ex have "filter available (proxies d) \<noteq> []" by (auto simp: filter_empty_conv)
  with get_available_proxies_rows [OF av] have "av \<noteq> []" by auto
  with av show ?thesis by (simp add: get_next_proxy_def Let_def)
qed

text \<open>
  Claim C10. A successful \<^verbatim>\<open>get_next_proxy\<close> changes nothing but the last-used column
  of the rows that carry the returned id: every other column of those rows, every other
  proxy row, the accounts and the activity log stay as they were. A call that returns
  \<^verbatim>\<open>None\<close> leaves the database unchanged.
\<close>

theorem get_next_proxy_frame:
  "(\<forall>p d'. get_next_proxy cs now d = Inr (Some p, d') \<longrightarrow>
      accounts d' = accounts d \<and> activity_log d' = activity_log d
      \<and> seq_proxies d' = seq_proxies d \<and> seq_accounts d' = seq_accounts d
      \<and> seq_activity_log d' = seq_activity_log d
      \<and> length (proxies d') = length (proxies d)
      \<and> (\<forall>i<length (proxies d).
            proxies d' ! i =
              (if p_id (proxies d ! i) = p_id p then (proxies d ! i)\<lparr>p_last_used := Some now\<rparr>
               else proxies d ! i)))
   \<and> (\<forall>d'. get_next_proxy cs now d = Inr (None, d') \<longrightarrow> d' = d)"
proof -
  have some: "accounts d' = accounts d \<and> activity_log d' = activity_log d
      \<and> seq_proxies d' = seq_proxies d \<and> seq_accounts d' = seq_accounts d
      \<and> seq_activity_log d' = seq_activity_log d
      \<and> length (proxies d') = length (proxies d)
      \<and> (\<forall>i<length (proxies d).
            proxies d' ! i =
              (if p_id (proxies d ! i) = p_id p then (proxies d ! i)\<lparr>p_last_used := Some now\<rparr>
               else proxies d ! i))"
    if "get_next_proxy cs now d = Inr (Some p, d')" for p d'
  proof -
    from get_next_proxy_Some [OF that] have "d' = update_last_used now (p_id p) d" by blast
    then show ?thesis by (simp add: update_last_used_def)
  qed
  have none: "d' = d" if "get_next_proxy cs now d = Inr (None, d')" for d'
    using that by (auto simp: get_next_proxy_def Let_def split: sum.splits if_splits)
  from some none show ?thesis by blast
qed

lemma length_increment_failure_count [simp]:
  "length (proxies (increment_failure_count pid d)) = length (proxies d)"
  by (simp add: increment_failure_count_def)

lemma increment_failure_count_nth:
  "i < length (proxies d) \<Longrightarrow>
   proxies (increment_failure_count pid d) ! i =
     (let r = proxies d ! i in
      if p_id r = pid
      then r\<lparr>p_failure_count := p_failure_count r + 1,
             p_status := (if p_failure_count r + 1 \<ge> 5 then ''inactive'' else p_status r)\<rparr>
      else r)"
  by (simp add: increment_failure_count_def Let_def)

lemma increment_failure_count_funpow:
  assumes "i < length (proxies d)" and "p_id (proxies d ! i) = pid"
  shows "length (proxies ((increment_failure_count pid ^^ k) d)) = length (proxies d)
    \<and> proxies ((increment_failure_count pid ^^ k) d) ! i =
        (proxies d ! i)\<lparr>p_failure_count := p_failure_count (proxies d ! i) + int k,
                        p_status := (if 0 < k \<and> p_failure_count (proxies d ! i) + int k \<ge> 5
                                     then ''inactive'' else p_status (proxies d ! i))\<rparr>"
proof (induction k)
  case 0
  show ?case by simp
next
  case (Suc k)
  let ?d = "(increment_failure_count pid ^^ k) d"
  from Suc assms have i: "i < length (proxies ?d)" by simp
  from Suc assms have idk: "p_id (proxies ?d ! i) = pid" by simp
  show ?case
    using Suc increment_failure_count_nth [OF i, of pid] idk
    by (simp add: Let_def add.assoc)
qed

text \<open>
  Claim C2. \<^verbatim>\<open>_increment_failure_count\<close> adds exactly one to the failure counter of the
  row with the given id, and sets its status to \<^verbatim>\<open>'inactive'\<close> exactly when the counter
  after the increment is 5 or more (the status is kept otherwise). A row that starts
  with counter 0 and status \<^verbatim>\<open>'active'\<close> is still active after fewer than five
  consecutive calls and \<^verbatim>\<open>'inactive'\<close> after the fifth.
\<close>

theorem increment_failure_count_threshold:
  assumes "i < length (proxies d)" and "p_id (proxies d ! i) = pid"
  shows "p_failure_count (proxies (increment_failure_count pid d) ! i)
           = p_failure_count (proxies d ! i) + 1
    \<and> p_status (proxies (increment_failure_count pid d) ! i)
           = (if p_failure_count (proxies (increment_failure_count pid d) ! i) \<ge> 5
              then ''inactive'' else p_status (proxies d ! i))
    \<and> (p_failure_count (proxies d ! i) = 0 \<and> p_status (proxies d ! i) = ''active'' \<longrightarrow>
          p_status (proxies ((increment_failure_count pid ^^ 5) d) ! i) = ''inactive''
          \<and> (\<forall>k<5. p_status (proxies ((increment_failure_count pid ^^ k) d) ! i) = ''active''))"
proof -
  have one: "p_failure_count (proxies (increment_failure_count pid d) ! i)
           = p_failure_count (proxies d ! i) + 1
    \<and> p_status (proxies (increment_failure_count pid d) ! i)
           = (if p_failure_count (proxies (increment_failure_count pid d) ! i) \<ge> 5
              then ''inactive'' else p_status (proxies d ! i))"
    using increment_failure_count_nth [OF assms(1), of pid] assms(2) by (simp add: Let_def)
  have five: "p_status (proxies ((increment_failure_count pid ^^ 5) d) ! i) = ''inactive''"
    if "p_failure_count (proxies d ! i) = 0"
    using increment_failure_count_funpow [OF assms, of 5] that by simp
  have before: "p_status (proxies ((increment_failure_count pid ^^ k) d) ! i) = ''active''"
    if "p_failure_count (proxies d ! i) = 0" "p_status (proxies d ! i) = ''active''" "k < 5" for k
    using increment_failure_count_funpow [OF assms, of k] that by simp
  from one five before show ?thesis by blast
qed

lemma example_get_next_proxy:
  "get_next_proxy example_cipher ''2026-11-04T12:00:00'' example_pool =
     Inr (Some (proxy_row.extend P1 (proxy.fields None)),
          example_pool\<lparr>proxies := [P2, P1\<lparr>p_last_used := Some ''2026-11-04T12:00:00''\<rparr>, P3]\<rparr>)"
  by (simp add: get_next_proxy_def get_available_proxies_def proxy_of_row_def available_def
      example_pool_def example_cipher_def P1_def P2_def P3_def last_used_key_def
      update_last_used_def proxy_row.defs proxy.defs Let_def)

theorem get_next_proxy_frame_witness:
  "(\<exists>p d'. get_next_proxy example_cipher ''2026-11-04T12:00:00'' example_pool = Inr (Some p, d')
      \<and> accounts d' = accounts example_pool \<and> activity_log d' = activity_log example_pool
      \<and> proxies d' ! 0 = P2 \<and> proxies d' ! 2 = P3
      \<and> proxies d' ! 1 = P1\<lparr>p_last_used := Some ''2026-11-04T12:00:00''\<rparr>)
   \<and> get_next_proxy example_cipher ''2026-11-04T12:00:00'' exhausted_pool
        = Inr (None, exhausted_pool)"
proof -
  have run: "get_next_proxy example_cipher ''2026-11-04T12:00:00'' example_pool =
     Inr (Some (proxy_row.extend P1 (proxy.fields None)),
          example_pool\<lparr>proxies := [P2, P1\<lparr>p_last_used := Some ''2026-11-04T12:00:00''\<rparr>, P3]\<rparr>)"
    by (simp add: get_next_proxy_def get_available_proxies_def proxy_of_row_def available_def
      example_pool_def example_cipher_def P1_def P2_def P3_def last_used_key_def
      update_last_used_def proxy_row.defs proxy.defs Let_def)
  have none: "get_next_proxy example_cipher ''2026-11-04T12:00:00'' exhausted_pool
        = Inr (None, exhausted_pool)"
    by (simp add: get_next_proxy_def get_available_proxies_def available_def
      exhausted_pool_def P3_def)
  have rows: "proxies example_pool ! 0 = P2 \<and> proxies example_pool ! 1 = P1
      \<and> proxies example_pool ! 2 = P3 \<and> length (proxies example_pool) = 3
      \<and> p_id P1 = 1 \<and> p_id P2 = 2 \<and> p_id P3 = 3
      \<and> p_id (proxy_row.extend P1 (proxy.fields None)) = 1"
    by (simp add: example_pool_def P1_def P2_def P3_def proxy_row.defs)
  from get_next_proxy_frame [of example_cipher "''2026-11-04T12:00:00''" example_pool]
    run none rows
  show ?thesis by (simp add: example_pool_def)
qed

theorem increment_failure_count_threshold_witness:
  "p_failure_count (proxies (increment_failure_count 1 example_pool) ! 1) = 1
   \<and> p_status (proxies (increment_failure_count 1 example_pool) ! 1) = ''active''
   \<and> p_status (proxies ((increment_failure_count 1 ^^ 5) example_pool) ! 1) = ''inactive''"
proof -
  have i: "1 < length (proxies example_pool)" by (simp add: example_pool_def)
  have pid: "p_id (proxies example_pool ! 1) = 1" by (simp add: example_pool_def P1_def)
  have r: "p_failure_count (proxies example_pool ! 1) = 0
      \<and> p_status (proxies example_pool ! 1) = ''active''"
    by (simp add: example_pool_def P1_def)
  from increment_failure_count_threshold [OF i pid] r show ?thesis by simp
qed

lemma map_result_Inl:
  "map_result f xs = Inl e \<Longrightarrow> \<exists>x\<in>set xs. f x = Inl e"
  by (induction xs) (auto split: sum.splits)

lemma map_result_Inr_all:
  "map_result f xs = Inr ys \<Longrightarrow> \<forall>x\<in>set xs. \<exists>y. f x = Inr y"
  by (induction xs arbitrary: ys) (auto split: sum.splits)

lemma map_result_fails:
  assumes "\<exists>x\<in>set xs. \<exists>e. f x = Inl e"
  shows "\<exists>e. map_result f xs = Inl e"
proof (cases "map_result f xs")
  case (Inl e)
  then show ?thesis by blast
next
  case (Inr ys)
  from map_result_Inr_all [OF Inr] assms show ?thesis by auto
qed

lemma proxy_of_row_Inl:
  "proxy_of_row cs r = Inl e \<longleftrightarrow>
     e = InvalidToken \<and> truthy (p_password_encrypted r)
       \<and> decrypt cs (the (p_password_encrypted r)) = None"
  by (auto simp: proxy_of_row_def split: option.splits)

lemma get_next_proxy_raises:
  assumes "\<exists>r\<in>set (proxies d). available r \<and> truthy (p_password_encrypted r)
              \<and> decrypt cs (the (p_password_encrypted r)) = None"
  shows "get_next_proxy cs now d = Inl InvalidToken"
proof -
  from assms have "\<exists>r\<in>set (filter available (proxies d)). \<exists>e. proxy_of_row cs r = Inl e"
    by (auto simp: proxy_of_row_Inl)
  from map_result_fails [OF this] obtain e
    where e: "map_result (proxy_of_row cs) (filter available (proxies d)) = Inl e" ..
  from map_result_Inl [OF e] have "e = InvalidToken" by (auto simp: proxy_of_row_Inl)
  with e show ?thesis by (simp add: get_next_proxy_def get_available_proxies_def)
qed

text \<open>
  Claim C1, as stated, fails in one case: a row that qualifies does not ensure that a proxy
  is returned. With an available never-used proxy and a second available proxy whose
  stored secret does not decrypt, listing the available proxies raises and
  \<^verbatim>\<open>get_next_proxy\<close> returns nothing.
\<close>

theorem get_next_proxy_undecryptable_counterexample:
  "P1 \<in> set (proxies undecryptable_pool) \<and> p_status P1 = ''active'' \<and> p_failure_count P1 < 5
   \<and> get_next_proxy example_cipher ''2026-11-04T12:00:00'' undecryptable_pool = Inl InvalidToken"
  by (simp add: get_next_proxy_def get_available_proxies_def proxy_of_row_def available_def
      undecryptable_pool_def example_cipher_def P1_def P4_def)

text \<open>
  Claim C1, amended. In every database \<^verbatim>\<open>get_next_proxy\<close> never returns a proxy whose
  status is \<^verbatim>\<open>'inactive'\<close> or whose failure count is 5 or more. When some row has status
  \<^verbatim>\<open>'active'\<close> and failure count below 5, and the stored secret of every such row
  decrypts, a proxy is returned and it has both properties. When the stored secret of some
  such row does not decrypt, the call raises \<^verbatim>\<open>InvalidToken\<close> and returns no proxy. When
  no row qualifies, the call returns \<^verbatim>\<open>None\<close> and leaves the database unchanged.
\<close>

theorem get_next_proxy_returns_available:
  "(\<forall>p d'. get_next_proxy cs now d = Inr (Some p, d') \<longrightarrow>
      p_status p = ''active'' \<and> p_status p \<noteq> ''inactive'' \<and> p_failure_count p < 5)
   \<and> ((\<exists>r\<in>set (proxies d). available r)
        \<and> (\<forall>r\<in>set (proxies d). available r \<and> truthy (p_password_encrypted r)
               \<longrightarrow> decrypt cs (the (p_password_encrypted r)) \<noteq> None)
      \<longrightarrow> (\<exists>p d'. get_next_proxy cs now d = Inr (Some p, d')
                   \<and> p_status p = ''active'' \<and> p_failure_count p < 5))
   \<and> ((\<exists>r\<in>set (proxies d). available r \<and> truthy (p_password_encrypted r)
               \<and> decrypt cs (the (p_password_encrypted r)) = None)
      \<longrightarrow> get_next_proxy cs now d = Inl InvalidToken)
   \<and> ((\<forall>r\<in>set (proxies d). \<not> available r) \<longrightarrow> get_next_proxy cs now d = Inr (None, d))"
proof -
  have safe: "p_status p = ''active'' \<and> p_status p \<noteq> ''inactive'' \<and> p_failure_count p < 5"
    if "get_next_proxy cs now d = Inr (Some p, d')" for p d'
  proof -
    from get_next_proxy_row [OF that] have "available (proxy_row.truncate p)" by simp
    then show ?thesis by (simp add: available_def proxy_row.defs)
  qed
  show ?thesis
    using safe get_next_proxy_returns [of d cs now] get_next_proxy_none_available [of d cs now]
      get_next_proxy_raises [of d cs now]
    by blast
qed

theorem get_next_proxy_returns_available_witness:
  "(\<exists>p d'. get_next_proxy example_cipher ''2026-11-04T12:00:00'' example_pool = Inr (Some p, d')
        \<and> p_status p = ''active'' \<and> p_failure_count p < 5)
   \<and> get_next_proxy example_cipher ''2026-11-04T12:00:00'' undecryptable_pool = Inl InvalidToken
   \<and> get_next_proxy example_cipher ''2026-11-04T12:00:00'' exhausted_pool
        = Inr (None, exhausted_pool)"
proof -
  have ex: "\<exists>r\<in>set (proxies example_pool). available r"
    by (simp add: example_pool_def available_def P1_def P2_def P3_def)
  have dec: "\<forall>r\<in>set (proxies example_pool). available r \<and> truthy (p_password_encrypted r)
               \<longrightarrow> decrypt example_cipher (the (p_password_encrypted r)) \<noteq> None"
    by (simp add: example_pool_def available_def P1_def P2_def P3_def example_cipher_def)
  have bad: "\<exists>r\<in>set (proxies undecryptable_pool). available r \<and> truthy (p_password_encrypted r)
               \<and> decrypt example_cipher (the (p_password_encrypted r)) = None"
    by (simp add: undecryptable_pool_def available_def P1_def P4_def example_cipher_def)
  have none: "\<forall>r\<in>set (proxies exhausted_pool). \<not> available r"
    by (simp add: exhausted_pool_def available_def P3_def)
  from ex dec
    get_next_proxy_returns_available [of example_cipher "''2026-11-04T12:00:00''" example_pool]
  have 1: "\<exists>p d'. get_next_proxy example_cipher ''2026-11-04T12:00:00'' example_pool
            = Inr (Some p, d') \<and> p_status p = ''active'' \<and> p_failure_count p < 5" by blast
  from bad
    get_next_proxy_returns_available [of example_cipher "''2026-11-04T12:00:00''"
      undecryptable_pool]
  have 2: "get_next_proxy example_cipher ''2026-11-04T12:00:00'' undecryptable_pool
            = Inl InvalidToken" by blast
  from none
    get_next_proxy_returns_available [of example_cipher "''2026-11-04T12:00:00''" exhausted_pool]
  have 3: "get_next_proxy example_cipher ''2026-11-04T12:00:00'' exhausted_pool
        = Inr (None, exhausted_pool)" by blast
  from 1 2 3 show ?thesis by blast
qed

lemma last_used_key_cases:
  "last_used_key p =
     (case p_last_used p of None \<Rightarrow> ''1970-01-01''
      | Some s \<Rightarrow> if s = [] then ''1970-01-01'' else s)"
  by (simp add: last_used_key_def split: option.splits)

lemma get_next_proxy_least_key:
  assumes "get_next_proxy cs now d = Inr (Some p, d')"
    and "r \<in> set (proxies d)" and "available r"
  shows "last_used_key p \<le> last_used_key r"
proof -
  from get_next_proxy_Some [OF assms(1)] obtain av where
    av: "get_available_proxies cs d = Inr av" and p: "p = hd (sort_key last_used_key av)"
    by blast
  from assms(2,3) have "r \<in> set (map proxy_row.truncate av)"
    unfolding get_available_proxies_rows [OF av] by simp
  then obtain q where q: "q \<in> set av" "proxy_row.truncate q = r" by auto
  from hd_sort_key_least [OF q(1), of last_used_key] have "last_used_key p \<le> last_used_key q"
    using p by simp
  with truncate_fields [OF q(2)] show ?thesis by simp
qed

lemma example_used_pool:
  "get_next_proxy example_cipher ''2026-11-04T12:00:00'' used_pool =
     Inr (Some (proxy_row.extend P5 (proxy.fields None)),
          used_pool\<lparr>proxies := [P2, P5\<lparr>p_last_used := Some ''2026-11-04T12:00:00''\<rparr>]\<rparr>)"
  by (simp add: get_next_proxy_def get_available_proxies_def proxy_of_row_def available_def
      used_pool_def example_cipher_def P2_def P5_def last_used_key_def
      update_last_used_def proxy_row.defs proxy.defs Let_def)

text \<open>
  Claim C5. The proxy that \<^verbatim>\<open>get_next_proxy\<close> returns is a row with status
  \<^verbatim>\<open>'active'\<close> and failure count below 5, and it is the oldest of these rows, a null (or
  empty) last-used counting as \<^verbatim>\<open>'1970-01-01'\<close>: among rows that were used its timestamp
  is the least; a used row is returned while a never-used one is available only if its
  timestamp is not after \<^verbatim>\<open>'1970-01-01'\<close>; and when a never-used row is returned, no
  used row has a timestamp before \<^verbatim>\<open>'1970-01-01'\<close>. So when some available row was never
  used and every used one carries a timestamp after \<^verbatim>\<open>'1970-01-01'\<close>, the returned proxy
  is a never-used one. The call stamps the last-used column of the returned row with the
  current time.
\<close>

theorem get_next_proxy_oldest_first:
  assumes "get_next_proxy cs now d = Inr (Some p, d')"
  shows "proxy_row.truncate p \<in> set (proxies d)
    \<and> p_status p = ''active'' \<and> p_failure_count p < 5
    \<and> (\<forall>r\<in>set (proxies d). p_status r = ''active'' \<and> p_failure_count r < 5 \<longrightarrow>
          (\<forall>s t. p_last_used p = Some s \<and> s \<noteq> [] \<and> p_last_used r = Some t \<and> t \<noteq> []
                 \<longrightarrow> s \<le> t)
          \<and> (\<forall>s. p_last_used p = Some s \<and> s \<noteq> []
                   \<and> (p_last_used r = None \<or> p_last_used r = Some [])
                 \<longrightarrow> s \<le> ''1970-01-01'')
          \<and> (\<forall>t. (p_last_used p = None \<or> p_last_used p = Some [])
                   \<and> p_last_used r = Some t \<and> t \<noteq> []
                 \<longrightarrow> ''1970-01-01'' \<le> t))
    \<and> ((\<exists>r\<in>set (proxies d). p_status r = ''active'' \<and> p_failure_count r < 5
                \<and> p_last_used r = None)
        \<and> (\<forall>r\<in>set (proxies d). p_status r = ''active'' \<and> p_failure_count r < 5
                \<and> p_last_used r \<noteq> None
               \<longrightarrow> ''1970-01-01'' < the (p_last_used r))
       \<longrightarrow> p_last_used p = None)
    \<and> length (proxies d') = length (proxies d)
    \<and> (\<forall>i<length (proxies d). p_id (proxies d ! i) = p_id p
          \<longrightarrow> p_last_used (proxies d' ! i) = Some now)"
proof -
  let ?q = "proxy_row.truncate p"
  from get_next_proxy_row [OF assms] have q: "?q \<in> set (proxies d)" "available ?q" by simp_all
  have pq: "p_last_used ?q = p_last_used p" "p_status ?q = p_status p"
    "p_failure_count ?q = p_failure_count p" by (simp_all add: proxy_row.defs)
  from q(2) pq have ok: "p_status p = ''active'' \<and> p_failure_count p < 5"
    by (simp add: available_def)
  have least: "last_used_key p \<le> last_used_key r"
    if "r \<in> set (proxies d)" "p_status r = ''active'' \<and> p_failure_count r < 5" for r
    using get_next_proxy_least_key [OF assms that(1)] that(2) by (simp add: available_def)
  have order: "(\<forall>s t. p_last_used p = Some s \<and> s \<noteq> [] \<and> p_last_used r = Some t \<and> t \<noteq> []
                 \<longrightarrow> s \<le> t)
          \<and> (\<forall>s. p_last_used p = Some s \<and> s \<noteq> []
                   \<and> (p_last_used r = None \<or> p_last_used r = Some [])
                 \<longrightarrow> s \<le> ''1970-01-01'')
          \<and> (\<forall>t. (p_last_used p = None \<or> p_last_used p = Some [])
                   \<and> p_last_used r = Some t \<and> t \<noteq> []
                 \<longrightarrow> ''1970-01-01'' \<le> t)"
    if "r \<in> set (proxies d)" "p_status r = ''active'' \<and> p_failure_count r < 5" for r
    using least [OF that] by (auto simp: last_used_key_cases)
  have never: "p_last_used p = None"
    if r: "r \<in> set (proxies d)" "p_status r = ''active'' \<and> p_failure_count r < 5"
        "p_last_used r = None"
      and used: "\<forall>r\<in>set (proxies d). p_status r = ''active'' \<and> p_failure_count r < 5
                \<and> p_last_used r \<noteq> None
               \<longrightarrow> ''1970-01-01'' < the (p_last_used r)" for r
  proof (rule ccontr)
    assume n: "p_last_used p \<noteq> None"
    with q(1) q(2) pq used have lt: "''1970-01-01'' < the (p_last_used p)"
      by (auto simp: available_def)
    then have "the (p_last_used p) \<noteq> []" by auto
    with n have kp: "last_used_key p = the (p_last_used p)" by (auto simp: last_used_key_def)
    from r have kr: "last_used_key r = ''1970-01-01''" by (simp add: last_used_key_def)
    from least [OF r(1,2)] kp kr lt show False by simp
  qed
  from get_next_proxy_Some [OF assms] have "d' = update_last_used now (p_id p) d" by blast
  then have stamp: "length (proxies d') = length (proxies d)
    \<and> (\<forall>i<length (proxies d). p_id (proxies d ! i) = p_id p
          \<longrightarrow> p_last_used (proxies d' ! i) = Some now)"
    by (simp add: update_last_used_def)
  from q(1) ok order never stamp show ?thesis by blast
qed

theorem get_next_proxy_oldest_first_witness:
  "get_next_proxy example_cipher ''2026-11-04T12:00:00'' example_pool =
     Inr (Some (proxy_row.extend P1 (proxy.fields None)),
          example_pool\<lparr>proxies := [P2, P1\<lparr>p_last_used := Some ''2026-11-04T12:00:00''\<rparr>, P3]\<rparr>)
   \<and> p_last_used (proxy_row.extend P1 (proxy.fields None)) = None
   \<and> ''1970-01-01'' \<le> ''2026-11-04T10:00:00''
   \<and> get_next_proxy example_cipher ''2026-11-04T12:00:00'' used_pool =
     Inr (Some (proxy_row.extend P5 (proxy.fields None)),
          used_pool\<lparr>proxies := [P2, P5\<lparr>p_last_used := Some ''2026-11-04T12:00:00''\<rparr>]\<rparr>)
   \<and> ''2026-11-03T10:00:00'' \<le> ''2026-11-04T10:00:00''"
proof -
  have P2: "P2 \<in> set (proxies example_pool) \<and> P2 \<in> set (proxies used_pool)
      \<and> p_status P2 = ''active'' \<and> p_failure_count P2 < 5
      \<and> p_last_used P2 = Some ''2026-11-04T10:00:00''"
    by (simp add: example_pool_def used_pool_def P2_def)
  have P1: "p_last_used (proxy_row.extend P1 (proxy.fields None)) = None"
    by (simp add: P1_def proxy_row.defs)
  have P5: "p_last_used (proxy_row.extend P5 (proxy.fields None)) = Some ''2026-11-03T10:00:00''"
    by (simp add: P5_def proxy_row.defs)
  from get_next_proxy_oldest_first [OF example_get_next_proxy] P2 P1
  have 1: "''1970-01-01'' \<le> ''2026-11-04T10:00:00''" by blast
  from get_next_proxy_oldest_first [OF example_used_pool] P2 P5
  have 2: "''2026-11-03T10:00:00'' \<le> ''2026-11-04T10:00:00''" by fastforce
  from example_get_next_proxy example_used_pool P1 1 2 show ?thesis by blast
qed

section \<open>Properties of \<^verbatim>\<open>load_proxies\<close>\<close>


lemma select_proxy_None [simp]: "select_proxy None port d = []"
  by (simp add: select_proxy_def)














lemmas py_int_simps = py_int_def strip_def is_space_def is_digit_def digit_val_def

lemma row_port_good_row: "row_port good_row = Inr 3128"
  by (simp add: row_port_def good_row_def py_int_simps)


lemma row_get_good_row: "row_get good_row ''ip'' = Some ''10.0.0.9''"
  by (simp add: row_get_def good_row_def)


lemma load_row_good_row_again:
  "load_row cs good_row (empty_db\<lparr>proxies := [good_proxy], seq_proxies := 1\<rparr>)
     = Inr (empty_db\<lparr>proxies := [good_proxy], seq_proxies := 1\<rparr>)"
  by (simp add: load_row_def row_port_good_row row_get_good_row select_proxy_def empty_db_def
      good_proxy_def)












section \<open>Properties of the scheduled jobs\<close>

lemmas job_defs = create_post_job_def create_comment_job_def get_account_details_def
  am_decrypt_def is_within_activity_hours_def choice_def log_activity_def next_hours_def
  uniform_def next_rowid_def

lemmas example_defs = example_config_def example_env_def suspended_account_def job_db_def
  example_cipher_def P1_def P2_def P3_def

lemmas proxy_defs = get_next_proxy_def get_available_proxies_def proxy_of_row_def available_def
  last_used_key_def update_last_used_def proxy_row.defs proxy.defs

lemma example_post_job:
  "create_post_job example_cipher example_config example_env 1 ''alice'' job_db =
    (Inr (Hours 12),
     job_db\<lparr>proxies := [P2, P1\<lparr>p_last_used := Some ''2026-11-04T09:00:00''\<rparr>, P3],
            accounts := [suspended_account\<lparr>a_last_post_date := Some ''2026-11-04T09:01:01'',
                                           a_total_posts := 1\<rparr>],
            activity_log := [\<lparr>l_id = 1, l_account_id = 1, l_activity_type = ''post'',
                l_activity_date = ''2026-11-04T09:01:00'', l_subreddit = ''AskReddit'',
                l_post_id = Some ''abc123'', l_comment_id = None, l_status = ''success'',
                l_details = None\<rparr>],
            seq_activity_log := 1\<rparr>)"
  by (simp add: job_defs example_defs proxy_defs account_row.defs account.defs Let_def)

lemma job_Hours:
  "fst (create_post_job cs cfg ev account_id username d) = Inr (Hours h)
     \<Longrightarrow> h = next_hours (post_frequency cfg) 12 48 20 ev"
  "fst (create_comment_job cs cfg ev account_id username d) = Inr (Hours h)
     \<Longrightarrow> h = next_hours (comment_frequency cfg) 4 24 30 ev"
  by (auto simp: create_post_job_def create_comment_job_def Let_def
      split: sum.splits option.splits if_splits prod.splits)

lemma next_hours_floor:
  "(case min_hours f of None \<Rightarrow> dmin | Some m \<Rightarrow> m) \<le> next_hours f dmin dmax dvar ev"
  by (simp add: next_hours_def Let_def)

text \<open>
  Claim C3. Whenever a post job or a comment job computes its next interval, the interval
  is at least the configured minimum (the default 12 or 4 hours when the entry has no
  minimum), for every maximum, every variance and every outcome of the random draws.
\<close>

theorem next_interval_at_least_min:
  "(fst (create_post_job cs cfg ev account_id username d) = Inr (Hours h)
      \<longrightarrow> (case min_hours (post_frequency cfg) of None \<Rightarrow> 12 | Some m \<Rightarrow> m) \<le> h)
   \<and> (fst (create_comment_job cs cfg ev account_id username d) = Inr (Hours h)
      \<longrightarrow> (case min_hours (comment_frequency cfg) of None \<Rightarrow> 4 | Some m \<Rightarrow> m) \<le> h)"
proof (intro conjI impI)
  assume "fst (create_post_job cs cfg ev account_id username d) = Inr (Hours h)"
  then have "h = next_hours (post_frequency cfg) 12 48 20 ev" by (rule job_Hours)
  then show "(case min_hours (post_frequency cfg) of None \<Rightarrow> 12 | Some m \<Rightarrow> m) \<le> h"
    by (simp add: next_hours_floor)
next
  assume "fst (create_comment_job cs cfg ev account_id username d) = Inr (Hours h)"
  then have "h = next_hours (comment_frequency cfg) 4 24 30 ev" by (rule job_Hours)
  then show "(case min_hours (comment_frequency cfg) of None \<Rightarrow> 4 | Some m \<Rightarrow> m) \<le> h"
    by (simp add: next_hours_floor)
qed

theorem next_interval_at_least_min_witness:
  "fst (create_post_job example_cipher example_config example_env 1 ''alice'' job_db)
      = Inr (Hours 12)
   \<and> (case min_hours (post_frequency example_config) of None \<Rightarrow> 12 | Some m \<Rightarrow> m) \<le> (12::real)
   \<and> min_hours (post_frequency example_config) = Some 12
   \<and> max_hours (post_frequency example_config) = Some 48"
proof -
  have run: "fst (create_post_job example_cipher example_config example_env 1 ''alice'' job_db)
      = Inr (Hours 12)"
    by (simp add: example_post_job)
  from next_interval_at_least_min
         [of example_cipher example_config example_env 1 "''alice''" job_db 12] run
  show ?thesis by (simp add: example_config_def)
qed


lemma find_map_status:
  "find (\<lambda>r. a_username r = Some u) (map (\<lambda>r. r\<lparr>a_account_status := s r\<rparr>) xs)
     = map_option (\<lambda>r. r\<lparr>a_account_status := s r\<rparr>) (find (\<lambda>r. a_username r = Some u) xs)"
  by (induction xs) auto

lemma get_account_details_status:
  "(get_account_details cs u (d\<lparr>accounts := map (\<lambda>r. r\<lparr>a_account_status := s r\<rparr>) (accounts d)\<rparr>) = Inl e)
      = (get_account_details cs u d = Inl e)"
  "(get_account_details cs u (d\<lparr>accounts := map (\<lambda>r. r\<lparr>a_account_status := s r\<rparr>) (accounts d)\<rparr>) = Inr None)
      = (get_account_details cs u d = Inr None)"
  by (auto simp: get_account_details_def find_map_status split: option.splits sum.splits)

lemma get_next_proxy_accounts:
  "get_next_proxy cs now (d\<lparr>accounts := a\<rparr>) =
     (case get_next_proxy cs now d of
        Inl e \<Rightarrow> Inl e
      | Inr (p, d1) \<Rightarrow> Inr (p, d1\<lparr>accounts := a\<rparr>))"
  by (simp add: get_next_proxy_def get_available_proxies_def update_last_used_def Let_def
      split: sum.splits)

lemma post_outcome_accounts:
  "post_outcome cs cfg ev (d\<lparr>accounts := a\<rparr>) h = post_outcome cs cfg ev d h"
  by (simp add: post_outcome_def get_next_proxy_accounts split: sum.splits prod.splits option.splits)




lemma job_outcome_status:
  fixes s :: "account_row \<Rightarrow> string option"
  defines "d' \<equiv> \<lambda>d. d\<lparr>accounts := map (\<lambda>r. r\<lparr>a_account_status := s r\<rparr>) (accounts d)\<rparr>"
  shows "(case get_account_details cs username (d' d) of
        Inl e \<Rightarrow> Inl e
      | Inr None \<Rightarrow> Inr CancelJob
      | Inr (Some a) \<Rightarrow> post_outcome cs cfg ev (d' d) h)
   = (case get_account_details cs username d of
        Inl e \<Rightarrow> Inl e
      | Inr None \<Rightarrow> Inr CancelJob
      | Inr (Some a) \<Rightarrow> post_outcome cs cfg ev d h)"
proof (cases "get_account_details cs username d")
  case (Inl e)
  then have "get_account_details cs username (d' d) = Inl e"
    unfolding d'_def by (simp add: get_account_details_status)
  with Inl show ?thesis by simp
next
  case (Inr x)
  show ?thesis
  proof (cases x)
    case None
    with Inr have "get_account_details cs username (d' d) = Inr None"
      unfolding d'_def by (simp add: get_account_details_status)
    with Inr None show ?thesis by simp
  next
    case (Some a)
    have "\<exists>a'. get_account_details cs username (d' d) = Inr (Some a')"
    proof (cases "get_account_details cs username (d' d)")
      case (Inl e)
      then have "get_account_details cs username d = Inl e"
        unfolding d'_def by (simp add: get_account_details_status)
      with Inr show ?thesis by simp
    next
      case r: (Inr y)
      show ?thesis
      proof (cases y)
        case None
        with r have "get_account_details cs username d = Inr None"
          unfolding d'_def by (simp add: get_account_details_status)
        with Inr Some show ?thesis by simp
      next
        case (Some a')
        with r show ?thesis by simp
      qed
    qed
    then obtain a' where "get_account_details cs username (d' d) = Inr (Some a')" ..
    with Inr Some show ?thesis
      unfolding d'_def by (simp add: post_outcome_accounts)
  qed
qed









lemma job_login_failure:
  "\<not> login_success ev \<Longrightarrow>
     (\<forall>h. fst (create_post_job cs cfg ev account_id username d) \<noteq> Inr (Hours h))
     \<and> (\<forall>h. fst (create_comment_job cs cfg ev account_id username d) \<noteq> Inr (Hours h))"
  by (auto simp: create_post_job_def create_comment_job_def Let_def
      split: sum.splits option.splits prod.splits)



















section \<open>Properties of the account secrets\<close>

lemma map_result_append:
  "map_result f (xs @ ys) =
     (case map_result f xs of
        Inl e \<Rightarrow> Inl e
      | Inr a \<Rightarrow> (case map_result f ys of Inl e \<Rightarrow> Inl e | Inr b \<Rightarrow> Inr (a @ b)))"
  by (induction xs) (auto split: sum.splits)

lemma find_append_new:
  "\<forall>x\<in>set xs. \<not> P x \<Longrightarrow> P y \<Longrightarrow> find P (xs @ [y]) = Some y"
  by (induction xs) auto

lemma am_round_trip:
  "\<forall>p. decrypt cs (encrypt cs p) = Some p \<Longrightarrow> am_decrypt cs (Some (am_encrypt cs pw)) = Inr pw"
  by (simp add: am_decrypt_def am_encrypt_def)

lemma save_account_Inr:
  assumes "save_account cs ua now username pw email proxy_id d = Inr d'"
  shows "(\<forall>r\<in>set (accounts d). a_username r \<noteq> Some username)
    \<and> (\<exists>new. accounts d' = accounts d @ [new] \<and> a_username new = Some username
          \<and> a_password_encrypted new = Some (am_encrypt cs pw))"
  using assms by (auto simp: save_account_def Let_def split: if_splits)

text \<open>
  The columns a secret passes through. Relative to a cipher suite in which decrypting an
  encryption gives the plaintext back, the password that \<^verbatim>\<open>_save_account\<close> stores is the
  one \<^verbatim>\<open>get_account_details\<close> and \<^verbatim>\<open>export_accounts\<close> read. That the encryption library
  has this property is not shown here.
\<close>

lemma saved_secret_columns:
  assumes law: "\<forall>p. decrypt cs (encrypt cs p) = Some p"
  shows "am_decrypt cs (Some (am_encrypt cs pw)) = Inr pw
    \<and> (save_account cs ua now username pw email proxy_id d = Inr d' \<longrightarrow>
         (\<exists>a. get_account_details cs username d' = Inr (Some a) \<and> a_password a = pw)
         \<and> ((\<forall>r\<in>set (accounts d). \<exists>q. am_decrypt cs (a_password_encrypted r) = Inr q) \<longrightarrow>
              (\<exists>rows. export_accounts cs d' = Inr rows \<and> rows \<noteq> []
                 \<and> e_username (last rows) = Some username
                 \<and> e_password (last rows) = Some pw)))"
proof (intro conjI impI)
  show rt: "am_decrypt cs (Some (am_encrypt cs pw)) = Inr pw"
    using law by (rule am_round_trip)
  assume save: "save_account cs ua now username pw email proxy_id d = Inr d'"
  from save_account_Inr [OF save] obtain new where
    fresh: "\<forall>r\<in>set (accounts d). a_username r \<noteq> Some username"
    and acc: "accounts d' = accounts d @ [new]" and name: "a_username new = Some username"
    and enc: "a_password_encrypted new = Some (am_encrypt cs pw)" by blast
  have "find (\<lambda>r. a_username r = Some username) (accounts d') = Some new"
    unfolding acc using fresh name by (intro find_append_new) auto
  then show "\<exists>a. get_account_details cs username d' = Inr (Some a) \<and> a_password a = pw"
    using rt enc by (simp add: get_account_details_def account_row.defs account.defs)
  assume old: "\<forall>r\<in>set (accounts d). \<exists>q. am_decrypt cs (a_password_encrypted r) = Inr q"
  let ?g = "\<lambda>r. case am_decrypt cs (a_password_encrypted r) of
                               Inl e \<Rightarrow> Inl e | Inr pw \<Rightarrow> Inr (a_id r, pw)"
  from old have g: "\<forall>r\<in>set (accounts d). \<exists>y. ?g r = Inr y" by auto
  from map_result_total [OF g] obtain entries
    where entries: "map_result ?g (accounts d) = Inr entries" ..
  have all: "map_result ?g (accounts d') = Inr (entries @ [(a_id new, pw)])"
    unfolding acc using entries rt enc by (simp add: map_result_append)
  show "\<exists>rows. export_accounts cs d' = Inr rows \<and> rows \<noteq> []
                 \<and> e_username (last rows) = Some username
                 \<and> e_password (last rows) = Some pw"
    unfolding export_accounts_def all using name by (simp add: acc Let_def)
qed

lemma saved_secret_columns_example:
  "am_decrypt example_cipher (Some (am_encrypt example_cipher ''s3cret!'')) = Inr ''s3cret!''
   \<and> (\<exists>d' rows a. save_account example_cipher None ''2026-11-04T09:00:00'' ''carol'' ''s3cret!''
                ''carol@example.org'' 1 job_db = Inr d'
         \<and> get_account_details example_cipher ''carol'' d' = Inr (Some a) \<and> a_password a = ''s3cret!''
         \<and> export_accounts example_cipher d' = Inr rows
         \<and> e_username (last rows) = Some ''carol'' \<and> e_password (last rows) = Some ''s3cret!'')"
proof -
  have law: "\<forall>p. decrypt example_cipher (encrypt example_cipher p) = Some p"
    by (simp add: example_cipher_def)
  have fresh: "\<not> (\<exists>r\<in>set (accounts job_db). a_username r = Some ''carol'')"
    by (simp add: job_db_def suspended_account_def)
  obtain d' where save: "save_account example_cipher None ''2026-11-04T09:00:00'' ''carol''
                ''s3cret!'' ''carol@example.org'' 1 job_db = Inr d'"
    using fresh by (simp add: save_account_def Let_def)
  have old: "\<forall>r\<in>set (accounts job_db). \<exists>q. am_decrypt example_cipher (a_password_encrypted r) = Inr q"
    by (simp add: job_db_def suspended_account_def am_decrypt_def example_cipher_def)
  note rt = saved_secret_columns [OF law, where pw = "''s3cret!''" and ua = None
         and now = "''2026-11-04T09:00:00''" and username = "''carol''"
         and email = "''carol@example.org''" and proxy_id = 1 and d = job_db and d' = d']
  from rt have 1: "am_decrypt example_cipher (Some (am_encrypt example_cipher ''s3cret!''))
      = Inr ''s3cret!''" by (rule conjunct1)
  from rt save have 2: "\<exists>a. get_account_details example_cipher ''carol'' d' = Inr (Some a)
      \<and> a_password a = ''s3cret!''" by (elim conjE) simp
  from rt save old have 3: "\<exists>rows. export_accounts example_cipher d' = Inr rows \<and> rows \<noteq> []
      \<and> e_username (last rows) = Some ''carol'' \<and> e_password (last rows) = Some ''s3cret!''"
    by (elim conjE) simp
  from 2 obtain a where a: "get_account_details example_cipher ''carol'' d' = Inr (Some a)"
    "a_password a = ''s3cret!''" by blast
  from 3 obtain rows where rows: "export_accounts example_cipher d' = Inr rows"
    "e_username (last rows) = Some ''carol''" "e_password (last rows) = Some ''s3cret!''" by blast
  from 1 save a rows show ?thesis by blast
qed

end
